theory Spec2Isabelle
  imports Complex_Main "HOL-Library.Char_ord" "HOL-Library.List_Lexorder" "HOL-Library.Multiset"
begin

section \<open>Retail sales analytics: the data model\<close>

text \<open>
  The program (\<^verbatim>\<open>analysis.py\<close>) keeps its orders in a pandas DataFrame with sixteen
  columns. A row of that frame is the record \<open>order\<close> below, a frame is the list of its
  rows in row order. Column types follow the dtypes the generator produces: object
  columns are strings, \<^verbatim>\<open>int64\<close> columns are integers, \<^verbatim>\<open>datetime64[ns]\<close> is the number of
  nanoseconds since the Unix epoch. The two \<^verbatim>\<open>float64\<close> money columns are modelled as exact
  rationals: rounding of binary floating point, NaN and missing values are outside the
  model, and every statement about sums below is a statement of exact arithmetic.
\<close>

record order =
  Order_ID :: string
  Order_Date :: int
  Customer_ID :: int
  Product_Category :: string
  Product :: string
  Quantity :: int
  Unit_Price :: rat
  Region :: string
  Customer_Segment :: string
  Payment_Method :: string
  Total_Sales :: rat
  Year :: int
  Month :: int
  Month_Name :: string
  Quarter :: int
  DayOfWeek :: string

type_synonym table = "order list"

text \<open>
  The Python exceptions that the modelled code can raise. All three are built-in
  exceptions raised by library calls or by indexing; the program defines no exception
  class of its own.
\<close>

datatype error = ValueError | IndexError | KeyError

section \<open>Objects and console output\<close>

text \<open>
  A DataFrame is a heap object and Python passes references. The world holds the frames
  allocated so far (a reference is a position in \<open>frames\<close>) and what has been printed.
  Every pandas operation used by the cleaner (\<^verbatim>\<open>drop_duplicates()\<close> without
  \<^verbatim>\<open>inplace\<close>, selection by a boolean mask) builds a new frame: it allocates and leaves
  its operand as it is. A reference that the program holds is always a position in
  \<open>frames\<close>; the theorems about the cleaner assume this of the caller's reference.

  What is printed is kept as a list of items: a line of text, the report on missing
  values (no column of the model can hold one, so it always says that none were found),
  the listing of the column dtypes, and the two lines that carry a number.
\<close>

datatype printed =
    Text string
  | MissingValues
  | DataTypes
  | DuplicatesRemoved int
  | RecordsAfterCleaning nat

record world =
  frames :: "table list"
  stdout :: "printed list"

definition print :: "printed \<Rightarrow> world \<Rightarrow> world" where
  "print p w = w\<lparr>stdout := stdout w @ [p]\<rparr>"

definition alloc :: "table \<Rightarrow> world \<Rightarrow> nat \<times> world" where
  "alloc t w = (length (frames w), w\<lparr>frames := frames w @ [t]\<rparr>)"

section \<open>The cleaner\<close>

text \<open>
  \<^verbatim>\<open>DataFrame.duplicated()\<close> (keep = first): the mask is true at a row that equals, in
  every column, a row seen before it.
\<close>

fun duplicated :: "'a list \<Rightarrow> 'a list \<Rightarrow> bool list" where
  "duplicated seen [] = []"
| "duplicated seen (r # rs) = (r \<in> set seen) # duplicated (r # seen) rs"

text \<open>Selection by a boolean mask, \<^verbatim>\<open>df[mask]\<close>: the rows whose mask entry is true, in order.\<close>

definition select_mask :: "'a list \<Rightarrow> bool list \<Rightarrow> 'a list" where
  "select_mask rows msk = map fst (filter snd (zip rows msk))"

definition drop_duplicates :: "nat \<Rightarrow> world \<Rightarrow> nat \<times> world" where
  "drop_duplicates df w =
     (let rows = frames w ! df
      in alloc (select_mask rows (map Not (duplicated [] rows))) w)"

definition getitem_mask :: "nat \<Rightarrow> (order \<Rightarrow> bool) \<Rightarrow> world \<Rightarrow> nat \<times> world" where
  "getitem_mask df cond w =
     (let rows = frames w ! df
      in alloc (select_mask rows (map cond rows)) w)"

definition banner :: string where
  "banner = replicate 60 CHR ''=''"

text \<open>
  \<^verbatim>\<open>data_cleaning(df)\<close>. The parameter \<open>df\<close> is the caller's reference; the local name
  \<^verbatim>\<open>df\<close> is rebound four times, to a fresh frame each time, and the last one is returned.
  The only value returned is that reference. Two numbers are printed: the number of
  duplicates removed and the number of rows left at the end.
\<close>

definition data_cleaning :: "nat \<Rightarrow> world \<Rightarrow> nat \<times> world" where
  "data_cleaning df w0 =
     (let w1 = print (Text banner) w0;
          w2 = print (Text ''STEP 1: DATA CLEANING'') w1;
          w3 = print (Text banner) w2;
          w4 = print MissingValues w3;
          w5 = print DataTypes w4;
          before = length (frames w5 ! df);
          (df1, w6) = drop_duplicates df w5;
          after = length (frames w6 ! df1);
          w7 = print (DuplicatesRemoved (int before - int after)) w6;
          (df2, w8) = getitem_mask df1 (\<lambda>r. Quantity r > 0) w7;
          (df3, w9) = getitem_mask df2 (\<lambda>r. Unit_Price r > 0) w8;
          (df4, w10) = getitem_mask df3 (\<lambda>r. Total_Sales r > 0) w9;
          w11 = print (RecordsAfterCleaning (length (frames w10 ! df4))) w10
      in (df4, w11))"

section \<open>The generator\<close>

subsection \<open>Order identifiers\<close>

text \<open>\<^verbatim>\<open>f'ORD-{i:05d}'\<close>: the decimal digits of \<open>i\<close>, padded on the left with zeros to five characters.\<close>

definition digit_char :: "nat \<Rightarrow> char" where
  "digit_char d = char_of (48 + d)"

fun str_nat :: "nat \<Rightarrow> string" where
  "str_nat n = (if n < 10 then [digit_char n] else str_nat (n div 10) @ [digit_char (n mod 10)])"

declare str_nat.simps [simp del]

definition format_05d :: "nat \<Rightarrow> string" where
  "format_05d i = (let s = str_nat i in replicate (5 - length s) CHR ''0'' @ s)"

definition order_id :: "nat \<Rightarrow> string" where
  "order_id i = ''ORD-'' @ format_05d i"

subsection \<open>Dates\<close>

text \<open>
  \<^verbatim>\<open>pd.date_range('2024-01-01', '2024-12-31', periods=n)\<close> is pandas code, modelled from its
  documentation: \<open>n\<close> timestamps evenly spaced from the start to the end, both included.
  pandas builds them with \<^verbatim>\<open>np.linspace(0, end - start, n, dtype=int64)\<close>, which raises
  ValueError for a negative \<open>n\<close> and gives the start alone for \<open>n = 1\<close>. The spacing is
  computed here with exact integer division (pandas goes through \<^verbatim>\<open>float64\<close>, which may
  differ in the last nanoseconds).
\<close>

definition ns_per_day :: int where
  "ns_per_day = 86400 * 1000000000"

definition start_2024 :: int where
  "start_2024 = 19723 * ns_per_day"

definition end_2024 :: int where
  "end_2024 = 20088 * ns_per_day"

definition date_range :: "int \<Rightarrow> error + int list" where
  "date_range periods =
     (if periods < 0 then Inl ValueError
      else if periods = 1 then Inr [start_2024]
      else Inr (map (\<lambda>i. start_2024 + (int i * (end_2024 - start_2024)) div (periods - 1))
                    [0..<nat periods]))"

text \<open>
  The \<^verbatim>\<open>.dt\<close> accessors: the proleptic Gregorian calendar date of a timestamp. Day 0 is
  1970-01-01, a Thursday.
\<close>

definition civil_from_days :: "int \<Rightarrow> int \<times> int \<times> int" where
  "civil_from_days days =
     (let z = days + 719468;
          era = z div 146097;
          doe = z mod 146097;
          yoe = (doe - doe div 1460 + doe div 36524 - doe div 146096) div 365;
          y = yoe + era * 400;
          doy = doe - (365 * yoe + yoe div 4 - yoe div 100);
          mp = (5 * doy + 2) div 153;
          d = doy - (153 * mp + 2) div 5 + 1;
          m = (if mp < 10 then mp + 3 else mp - 9)
      in (if m \<le> 2 then y + 1 else y, m, d))"

definition dt_year :: "int \<Rightarrow> int" where
  "dt_year ts = fst (civil_from_days (ts div ns_per_day))"

definition dt_month :: "int \<Rightarrow> int" where
  "dt_month ts = fst (snd (civil_from_days (ts div ns_per_day)))"

definition dt_quarter :: "int \<Rightarrow> int" where
  "dt_quarter ts = (dt_month ts - 1) div 3 + 1"

definition dt_month_name :: "int \<Rightarrow> string" where
  "dt_month_name ts =
     [''January'', ''February'', ''March'', ''April'', ''May'', ''June'', ''July'',
      ''August'', ''September'', ''October'', ''November'', ''December'']
     ! nat (dt_month ts - 1)"

definition dt_day_name :: "int \<Rightarrow> string" where
  "dt_day_name ts =
     [''Monday'', ''Tuesday'', ''Wednesday'', ''Thursday'', ''Friday'', ''Saturday'', ''Sunday'']
     ! nat ((ts div ns_per_day + 3) mod 7)"

subsection \<open>The random number generator\<close>

text \<open>
  numpy's global generator is not code of this program. It is a parameter of the model:
  a type \<open>'g\<close> of generator states and the five operations the program calls, each
  taking the state and returning its draws with the next state. \<open>numpy_contract\<close> is
  what numpy's documentation promises about the shape and range of the draws; nothing is
  assumed about their distribution.
\<close>

record 'g numpy_random =
  rng_seed :: "int \<Rightarrow> 'g"
  randint :: "int \<Rightarrow> int \<Rightarrow> nat \<Rightarrow> 'g \<Rightarrow> int list \<times> 'g"
  choice :: "string list \<Rightarrow> nat \<Rightarrow> rat list option \<Rightarrow> 'g \<Rightarrow> string list \<times> 'g"
  uniform :: "rat \<Rightarrow> rat \<Rightarrow> nat \<Rightarrow> 'g \<Rightarrow> rat list \<times> 'g"
  permutation :: "nat \<Rightarrow> 'g \<Rightarrow> nat list \<times> 'g"

definition numpy_contract :: "'g numpy_random \<Rightarrow> bool" where
  "numpy_contract np \<longleftrightarrow>
     (\<forall>lo hi n g. lo < hi \<longrightarrow>
        length (fst (randint np lo hi n g)) = n \<and>
        (\<forall>x \<in> set (fst (randint np lo hi n g)). lo \<le> x \<and> x < hi)) \<and>
     (\<forall>xs n p g. xs \<noteq> [] \<longrightarrow>
        length (fst (choice np xs n p g)) = n \<and>
        set (fst (choice np xs n p g)) \<subseteq> set xs) \<and>
     (\<forall>lo hi n g. lo < hi \<longrightarrow>
        length (fst (uniform np lo hi n g)) = n \<and>
        (\<forall>x \<in> set (fst (uniform np lo hi n g)). lo \<le> x \<and> x \<le> hi)) \<and>
     (\<forall>n g. length (fst (permutation np n g)) = n \<and>
        set (fst (permutation np n g)) = {0..<n})"

subsection \<open>Constants of the generator\<close>

definition cities :: "string list" where
  "cities = [''Sydney'', ''Melbourne'', ''Brisbane'', ''Perth'', ''Adelaide'']"

definition city_weights :: "rat list" where
  "city_weights = [30 / 100, 25 / 100, 20 / 100, 15 / 100, 10 / 100]"

definition categories :: "string list" where
  "categories = [''Electronics'', ''Clothing'', ''Home & Garden'', ''Sports'', ''Books'']"

definition category_weights :: "rat list" where
  "category_weights = [25 / 100, 30 / 100, 20 / 100, 15 / 100, 10 / 100]"

definition products :: "(string \<times> string list) list" where
  "products =
     [(''Electronics'', [''Laptop'', ''Smartphone'', ''Tablet'', ''Headphones'', ''Smart Watch'']),
      (''Clothing'', [''T-Shirt'', ''Jeans'', ''Jacket'', ''Dress'', ''Shoes'']),
      (''Home & Garden'', [''Furniture'', ''Kitchenware'', ''Bedding'', ''Decor'', ''Tools'']),
      (''Sports'', [''Bike'', ''Yoga Mat'', ''Dumbbells'', ''Tennis Racket'', ''Running Shoes'']),
      (''Books'', [''Fiction'', ''Non-Fiction'', ''Textbook'', ''Cookbook'', ''Biography''])]"

definition segments :: "string list" where
  "segments = [''Premium'', ''Regular'', ''New'', ''VIP'']"

definition segment_weights :: "rat list" where
  "segment_weights = [20 / 100, 45 / 100, 20 / 100, 15 / 100]"

definition payments :: "string list" where
  "payments = [''Credit Card'', ''PayPal'', ''Bank Transfer'', ''Cash'']"

definition payment_weights :: "rat list" where
  "payment_weights = [40 / 100, 30 / 100, 20 / 100, 10 / 100]"

subsection \<open>Prices\<close>

text \<open>
  \<^verbatim>\<open>np.round(x, 2)\<close> multiplies by 100, rounds to the nearest integer with ties going to the
  even one, and divides by 100.
\<close>

definition rint :: "rat \<Rightarrow> int" where
  "rint x =
     (let f = \<lfloor>x\<rfloor>; r = x - of_int f
      in if r < 1 / 2 then f else if 1 / 2 < r then f + 1 else if even f then f else f + 1)"

definition np_round2 :: "rat \<Rightarrow> rat" where
  "np_round2 x = of_int (rint (x * 100)) / 100"

subsection \<open>Products\<close>

text \<open>
  The loop \<^verbatim>\<open>for cat in categories\<close>: for each category in turn, count the rows drawn with
  that category, draw that many product names from the category's list, and append them
  to \<^verbatim>\<open>data['Product']\<close> (the accumulator \<open>acc\<close>). The drawn names are therefore grouped by
  category, in the order of \<open>categories\<close>, not in row order.
\<close>

fun assign_products ::
  "'g numpy_random \<Rightarrow> string list \<Rightarrow> string list \<Rightarrow> string list \<Rightarrow> 'g \<Rightarrow> (error + string list) \<times> 'g"
where
  "assign_products np product_category [] acc g = (Inr acc, g)"
| "assign_products np product_category (cat # rest) acc g =
     (let n_cat = length (filter (\<lambda>c. c = cat) product_category)
      in case map_of products cat of
           None \<Rightarrow> (Inl KeyError, g)
         | Some names \<Rightarrow>
             (let (drawn, g') = choice np names n_cat None g
              in assign_products np product_category rest (acc @ drawn) g'))"

subsection \<open>generate\_sample\_data\<close>

text \<open>
  The columns drawn before the frame is built, in the order in which the dictionary
  literal evaluates them.
\<close>

record columns =
  col_order_id :: "string list"
  col_order_date :: "int list"
  col_customer_id :: "int list"
  col_product_category :: "string list"
  col_product :: "string list"
  col_quantity :: "int list"
  col_unit_price :: "rat list"
  col_region :: "string list"
  col_customer_segment :: "string list"
  col_payment_method :: "string list"

text \<open>
  \<^verbatim>\<open>pd.DataFrame(data)\<close> raises ValueError unless all columns have one length. The derived
  columns are then computed row by row.
\<close>

definition make_row :: "columns \<Rightarrow> nat \<Rightarrow> order" where
  "make_row data i =
     \<lparr>Order_ID = col_order_id data ! i,
      Order_Date = col_order_date data ! i,
      Customer_ID = col_customer_id data ! i,
      Product_Category = col_product_category data ! i,
      Product = col_product data ! i,
      Quantity = col_quantity data ! i,
      Unit_Price = col_unit_price data ! i,
      Region = col_region data ! i,
      Customer_Segment = col_customer_segment data ! i,
      Payment_Method = col_payment_method data ! i,
      Total_Sales = of_int (col_quantity data ! i) * col_unit_price data ! i,
      Year = dt_year (col_order_date data ! i),
      Month = dt_month (col_order_date data ! i),
      Month_Name = dt_month_name (col_order_date data ! i),
      Quarter = dt_quarter (col_order_date data ! i),
      DayOfWeek = dt_day_name (col_order_date data ! i)\<rparr>"

definition same_length :: "columns \<Rightarrow> bool" where
  "same_length data \<longleftrightarrow>
     (let n = length (col_order_id data)
      in length (col_order_date data) = n \<and> length (col_customer_id data) = n \<and>
         length (col_product_category data) = n \<and> length (col_product data) = n \<and>
         length (col_quantity data) = n \<and> length (col_unit_price data) = n \<and>
         length (col_region data) = n \<and> length (col_customer_segment data) = n \<and>
         length (col_payment_method data) = n)"

definition DataFrame :: "columns \<Rightarrow> error + table" where
  "DataFrame data =
     (if same_length data then Inr (map (make_row data) [0..<length (col_order_id data)])
      else Inl ValueError)"

text \<open>
  \<^verbatim>\<open>generate_sample_data(n_orders, seed)\<close>. \<open>g0\<close> is the state of numpy's global generator
  when the function is called; the result comes with the state it leaves behind.
  \<^verbatim>\<open>np.random.seed\<close> accepts an integer from 0 to \<open>2^32 - 1\<close> and raises ValueError for any
  other. The list comprehension \<^verbatim>\<open>[data['Product'][i] for i in indices]\<close> raises IndexError
  at an index that is out of range.
\<close>

definition generate_sample_data ::
  "'g numpy_random \<Rightarrow> int \<Rightarrow> int \<Rightarrow> 'g \<Rightarrow> (error + table) \<times> 'g"
where
  "generate_sample_data np n_orders seed g0 =
     (if seed < 0 \<or> 2 ^ 32 \<le> seed then (Inl ValueError, g0)
      else
        let g1 = rng_seed np seed
        in case date_range n_orders of
             Inl e \<Rightarrow> (Inl e, g1)
           | Inr dates \<Rightarrow>
               (let n = nat n_orders;
                    order_ids = map order_id [1..<n + 1];
                    (customer_ids, g2) = randint np 1001 1100 n g1;
                    (product_category, g3) = choice np categories n (Some category_weights) g2;
                    (quantity, g4) = randint np 1 10 n g3;
                    (prices, g5) = uniform np 10 500 n g4;
                    unit_price = map np_round2 prices;
                    (region, g6) = choice np cities n (Some city_weights) g5;
                    (customer_segment, g7) = choice np segments n (Some segment_weights) g6;
                    (payment_method, g8) = choice np payments n (Some payment_weights) g7
                in case assign_products np product_category categories [] g8 of
                     (Inl e, g9) \<Rightarrow> (Inl e, g9)
                   | (Inr product, g9) \<Rightarrow>
                       (let (indices, g10) = permutation np n g9
                        in if \<exists>i \<in> set indices. length product \<le> i then (Inl IndexError, g10)
                           else
                             (DataFrame
                                \<lparr>col_order_id = order_ids,
                                 col_order_date = dates,
                                 col_customer_id = customer_ids,
                                 col_product_category = product_category,
                                 col_product = map (\<lambda>i. product ! i) indices,
                                 col_quantity = quantity,
                                 col_unit_price = unit_price,
                                 col_region = region,
                                 col_customer_segment = customer_segment,
                                 col_payment_method = payment_method\<rparr>,
                              g10))))"

section \<open>Aggregation\<close>

text \<open>
  \<^verbatim>\<open>df.groupby(key)['Total_Sales']\<close>: one group for each distinct key value, the groups in
  ascending key order (pandas sorts group keys by default). The functions of this section
  only read the frame and are given its rows. A Series is the list of its
  (index label, value) pairs in order.
\<close>

definition group_keys :: "(order \<Rightarrow> 'k::linorder) \<Rightarrow> table \<Rightarrow> 'k list" where
  "group_keys key df = sort (remdups (map key df))"

definition group_rows :: "(order \<Rightarrow> 'k) \<Rightarrow> 'k \<Rightarrow> table \<Rightarrow> table" where
  "group_rows key k df = filter (\<lambda>r. key r = k) df"

definition groupby_sum :: "(order \<Rightarrow> 'k::linorder) \<Rightarrow> table \<Rightarrow> ('k \<times> rat) list" where
  "groupby_sum key df =
     map (\<lambda>k. (k, sum_list (map Total_Sales (group_rows key k df)))) (group_keys key df)"

record agg =
  agg_sum :: rat
  agg_mean :: rat
  agg_count :: nat

text \<open>\<^verbatim>\<open>.agg(['sum', 'mean', 'count'])\<close>. A group is never empty, so its mean is defined.\<close>

definition groupby_agg :: "(order \<Rightarrow> 'k::linorder) \<Rightarrow> table \<Rightarrow> ('k \<times> agg) list" where
  "groupby_agg key df =
     map (\<lambda>k. let sales = map Total_Sales (group_rows key k df)
              in (k, \<lparr>agg_sum = sum_list sales,
                      agg_mean = sum_list sales / of_nat (length sales),
                      agg_count = length sales\<rparr>))
         (group_keys key df)"

text \<open>
  \<^verbatim>\<open>sort_values(..., ascending=False)\<close>: descending by value. Rows with equal values are kept
  here in their previous order; pandas' default sort promises no order among them, and
  nothing below depends on it.
\<close>

definition sort_values_desc :: "('a \<Rightarrow> rat) \<Rightarrow> 'a list \<Rightarrow> 'a list" where
  "sort_values_desc val xs = sort_key (\<lambda>x. - val x) xs"

text \<open>
  \<^verbatim>\<open>Series.idxmax()\<close>: the label of the first occurrence of the greatest value; ValueError on
  an empty Series. \<^verbatim>\<open>Series.max()\<close>: the greatest value; on an empty Series it returns NaN
  without raising, which is \<open>None\<close> here.
\<close>

fun argmax_from :: "'k \<times> rat \<Rightarrow> ('k \<times> rat) list \<Rightarrow> 'k \<times> rat" where
  "argmax_from best [] = best"
| "argmax_from best (kv # rest) =
     (if snd best < snd kv then argmax_from kv rest else argmax_from best rest)"

definition idxmax :: "('k \<times> rat) list \<Rightarrow> error + 'k" where
  "idxmax series = (case series of [] \<Rightarrow> Inl ValueError | kv # rest \<Rightarrow> Inr (fst (argmax_from kv rest)))"

definition series_max :: "('k \<times> rat) list \<Rightarrow> rat option" where
  "series_max series = (case series of [] \<Rightarrow> None | kv # rest \<Rightarrow> Some (snd (argmax_from kv rest)))"

text \<open>\<^verbatim>\<open>Series.mean()\<close> and \<^verbatim>\<open>Series.median()\<close>; NaN (\<open>None\<close>) on an empty Series.\<close>

definition series_mean :: "rat list \<Rightarrow> rat option" where
  "series_mean xs = (if xs = [] then None else Some (sum_list xs / of_nat (length xs)))"

definition series_median :: "rat list \<Rightarrow> rat option" where
  "series_median xs =
     (let s = sort xs; n = length xs
      in if n = 0 then None
         else if odd n then Some (s ! (n div 2))
         else Some ((s ! (n div 2 - 1) + s ! (n div 2)) / 2))"

subsection \<open>descriptive\_statistics\<close>

text \<open>
  \<^verbatim>\<open>descriptive_statistics(df)\<close> prints what it computes and returns nothing. The record
  holds the computed values; their formatting on the console is not modelled.
\<close>

record statistics =
  total_sales :: rat
  avg_order :: "rat option"
  median_order :: "rat option"
  unique_customers :: nat
  total_orders :: nat
  category_sales :: "(string \<times> agg) list"
  region_sales :: "(string \<times> agg) list"

definition descriptive_statistics :: "table \<Rightarrow> statistics" where
  "descriptive_statistics df =
     \<lparr>total_sales = sum_list (map Total_Sales df),
      avg_order = series_mean (map Total_Sales df),
      median_order = series_median (map Total_Sales df),
      unique_customers = length (remdups (map Customer_ID df)),
      total_orders = length df,
      category_sales = sort_values_desc (\<lambda>(k, a). agg_sum a) (groupby_agg Product_Category df),
      region_sales = sort_values_desc (\<lambda>(k, a). agg_sum a) (groupby_agg Region df)\<rparr>"

subsection \<open>key\_insights\<close>

text \<open>
  \<^verbatim>\<open>key_insights(df)\<close> computes, in this order, the best category and its sales, the top
  region and its sales, the top product and its sales, the top segment and the quarterly
  sums, and prints them. The first statement that raises ends the function.
\<close>

record insights =
  best_category :: string
  best_category_sales :: "rat option"
  top_region :: string
  top_region_sales :: "rat option"
  top_product :: string
  top_product_sales :: "rat option"
  top_segment :: string
  quarterly :: "(int \<times> rat) list"

definition key_insights :: "table \<Rightarrow> error + insights" where
  "key_insights df =
     (case idxmax (groupby_sum Product_Category df) of
        Inl e \<Rightarrow> Inl e
      | Inr bc \<Rightarrow>
     (let bcs = series_max (groupby_sum Product_Category df)
      in case idxmax (groupby_sum Region df) of
        Inl e \<Rightarrow> Inl e
      | Inr tr \<Rightarrow>
     (let trs = series_max (groupby_sum Region df)
      in case idxmax (groupby_sum Product df) of
        Inl e \<Rightarrow> Inl e
      | Inr tp \<Rightarrow>
     (let tps = series_max (groupby_sum Product df)
      in case idxmax (groupby_sum Customer_Segment df) of
        Inl e \<Rightarrow> Inl e
      | Inr ts \<Rightarrow>
          Inr \<lparr>best_category = bc, best_category_sales = bcs,
               top_region = tr, top_region_sales = trs,
               top_product = tp, top_product_sales = tps,
               top_segment = ts,
               quarterly = groupby_sum Quarter df\<rparr>))))"

subsection \<open>The top products of the dashboard\<close>

text \<open>
  \<^verbatim>\<open>create_visualizations\<close>, panel 5:
  \<^verbatim>\<open>df.groupby('Product')['Total_Sales'].sum().sort_values(ascending=False).head(7)\<close>.
\<close>

definition top_products :: "table \<Rightarrow> (string \<times> rat) list" where
  "top_products df = take 7 (sort_values_desc snd (groupby_sum Product df))"

section \<open>A concrete generator\<close>

text \<open>
  A small counter-based generator that meets \<open>numpy_contract\<close>. It stands in for numpy
  where the functions above are run on concrete inputs; its draws are not numpy's, and it
  ignores the weights.
\<close>

definition mix :: "int \<Rightarrow> int" where
  "mix k = ((k + 1) * 2654435761) mod 4294967296 div 65536"

definition raw_draws :: "nat \<Rightarrow> int \<Rightarrow> int list" where
  "raw_draws n g = map (\<lambda>i. mix (g + int i)) [0..<n]"

definition test_rng :: "int numpy_random" where
  "test_rng =
     \<lparr>rng_seed = (\<lambda>seed. seed),
      randint = (\<lambda>lo hi n g. (map (\<lambda>r. lo + r mod (hi - lo)) (raw_draws n g), g + int n)),
      choice = (\<lambda>xs n p g. (map (\<lambda>r. xs ! nat (r mod int (length xs))) (raw_draws n g), g + int n)),
      uniform = (\<lambda>lo hi n g.
                   (map (\<lambda>r. lo + (hi - lo) * of_int (r mod 1000) / 1000) (raw_draws n g),
                    g + int n)),
      permutation = (\<lambda>n g. (let k = nat (mix g mod int n)
                             in (drop k [0..<n] @ take k [0..<n], g + 1)))\<rparr>"

section \<open>Sample data\<close>

text \<open>
  Small frames on which the functions are run below. \<open>sale\<close> fills the columns that
  the examples do not vary.
\<close>

definition sale :: "string \<Rightarrow> string \<Rightarrow> string \<Rightarrow> string \<Rightarrow> int \<Rightarrow> rat \<Rightarrow> order" where
  "sale oid cat pname reg q p =
     \<lparr>Order_ID = oid, Order_Date = start_2024, Customer_ID = 1001,
      Product_Category = cat, Product = pname, Quantity = q, Unit_Price = p,
      Region = reg, Customer_Segment = ''Regular'', Payment_Method = ''Cash'',
      Total_Sales = of_int q * p, Year = 2024, Month = 1, Month_Name = ''January'',
      Quarter = 1, DayOfWeek = ''Monday''\<rparr>"

definition three_sales :: table where
  "three_sales =
     [sale ''ORD-00001'' ''Books'' ''Fiction'' ''Perth'' 2 15,
      sale ''ORD-00002'' ''Sports'' ''Bike'' ''Sydney'' 1 300,
      sale ''ORD-00003'' ''Books'' ''Cookbook'' ''Perth'' 3 20]"

definition dirty_sales :: table where
  "dirty_sales =
     [sale ''ORD-00001'' ''Books'' ''Fiction'' ''Perth'' 2 15,
      sale ''ORD-00002'' ''Sports'' ''Bike'' ''Sydney'' 0 300,
      sale ''ORD-00001'' ''Books'' ''Fiction'' ''Perth'' 2 15,
      sale ''ORD-00003'' ''Books'' ''Cookbook'' ''Perth'' 3 20]"

definition one_sale :: table where
  "one_sale = [sale ''ORD-00001'' ''Books'' ''Fiction'' ''Perth'' 2 15]"

definition one_sale_one_invalid :: table where
  "one_sale_one_invalid =
     [sale ''ORD-00001'' ''Books'' ''Fiction'' ''Perth'' 2 15,
      sale ''ORD-00002'' ''Sports'' ''Bike'' ''Sydney'' 0 300]"

definition nine_sales :: table where
  "nine_sales =
     [sale ''ORD-00001'' ''Books'' ''Fiction'' ''Perth'' 2 15,
      sale ''ORD-00002'' ''Sports'' ''Bike'' ''Sydney'' 1 300,
      sale ''ORD-00003'' ''Books'' ''Cookbook'' ''Perth'' 3 20,
      sale ''ORD-00004'' ''Electronics'' ''Laptop'' ''Sydney'' 1 450,
      sale ''ORD-00005'' ''Electronics'' ''Tablet'' ''Perth'' 1 200,
      sale ''ORD-00006'' ''Clothing'' ''Jeans'' ''Perth'' 2 40,
      sale ''ORD-00007'' ''Clothing'' ''Shoes'' ''Sydney'' 1 90,
      sale ''ORD-00008'' ''Sports'' ''Yoga Mat'' ''Perth'' 4 10,
      sale ''ORD-00009'' ''Books'' ''Fiction'' ''Sydney'' 1 25]"

text \<open>
  The table that \<open>generate_sample_data\<close> returns for two orders and seed 5 when its draws
  come from \<open>test_rng\<close> (shown below).
\<close>

definition two_orders :: table where
  "two_orders =
     [\<lparr>Order_ID = ''ORD-00001'', Order_Date = 1704067200000000000, Customer_ID = 1081,
       Product_Category = ''Sports'', Product = ''Jacket'', Quantity = 2,
       Unit_Price = 15161 / 100, Region = ''Sydney'', Customer_Segment = ''VIP'',
       Payment_Method = ''Bank Transfer'', Total_Sales = 15161 / 50, Year = 2024, Month = 1,
       Month_Name = ''January'', Quarter = 1, DayOfWeek = ''Monday''\<rparr>,
      \<lparr>Order_ID = ''ORD-00002'', Order_Date = 1735603200000000000, Customer_ID = 1096,
       Product_Category = ''Clothing'', Product = ''Bike'', Quantity = 6,
       Unit_Price = 13593 / 100, Region = ''Perth'', Customer_Segment = ''VIP'',
       Payment_Method = ''Bank Transfer'', Total_Sales = 40779 / 50, Year = 2024, Month = 12,
       Month_Name = ''December'', Quarter = 4, DayOfWeek = ''Tuesday''\<rparr>]"

text \<open>The world in which the caller holds one frame, at reference 0, and nothing is printed yet.\<close>

definition world_of :: "table \<Rightarrow> world" where
  "world_of t = \<lparr>frames = [t], stdout = []\<rparr>"

section \<open>Sums over groups\<close>

lemma sum_list_indicator_absent:
  "a \<notin> set ks \<Longrightarrow> sum_list (map (\<lambda>k. if a = k then c else (0::'b::comm_monoid_add)) ks) = 0"
  by (induction ks) auto

lemma sum_list_indicator:
  "distinct ks \<Longrightarrow> a \<in> set ks \<Longrightarrow>
     sum_list (map (\<lambda>k. if a = k then c else (0::'b::comm_monoid_add)) ks) = c"
proof (induction ks)
  case Nil
  then show ?case by simp
next
  case (Cons k ks)
  show ?case
  proof (cases "a = k")
    case True
    with Cons.prems have "a \<notin> set ks" by simp
    then show ?thesis using True by (simp add: sum_list_indicator_absent)
  next
    case False
    with Cons show ?thesis by simp
  qed
qed

text \<open>
  Summing group by group is summing everything, when every element belongs to exactly one
  of the groups: the keys \<open>ks\<close> are distinct and cover the keys that occur.
\<close>

lemma sum_list_by_group:
  fixes f :: "'a \<Rightarrow> 'b::comm_monoid_add"
  assumes "distinct ks" "key ` set xs \<subseteq> set ks"
  shows "sum_list (map (\<lambda>k. sum_list (map f (filter (\<lambda>x. key x = k) xs))) ks) = sum_list (map f xs)"
  using assms(2)
proof (induction xs)
  case Nil
  then show ?case by simp
next
  case (Cons x xs)
  have split: "sum_list (map f (filter (\<lambda>y. key y = k) (x # xs)))
      = (if key x = k then f x else 0) + sum_list (map f (filter (\<lambda>y. key y = k) xs))" for k
    by simp
  have "sum_list (map (\<lambda>k. sum_list (map f (filter (\<lambda>y. key y = k) (x # xs)))) ks)
      = sum_list (map (\<lambda>k. if key x = k then f x else 0) ks)
        + sum_list (map (\<lambda>k. sum_list (map f (filter (\<lambda>y. key y = k) xs))) ks)"
    unfolding split by (rule sum_list_addf)
  also have "sum_list (map (\<lambda>k. if key x = k then f x else 0) ks) = f x"
    using Cons.prems assms(1) by (intro sum_list_indicator) auto
  also have "sum_list (map (\<lambda>k. sum_list (map f (filter (\<lambda>y. key y = k) xs))) ks) = sum_list (map f xs)"
    using Cons by simp
  finally show ?case by simp
qed

lemma sum_list_ones: "sum_list (map (\<lambda>_. 1::nat) ys) = length ys"
  by (induction ys) simp_all

lemma length_by_group:
  assumes "distinct ks" "key ` set xs \<subseteq> set ks"
  shows "sum_list (map (\<lambda>k. length (filter (\<lambda>x. key x = k) xs)) ks) = length xs"
  using sum_list_by_group[OF assms, of "\<lambda>_. 1::nat"] by (simp only: sum_list_ones)

lemma group_keys_props:
  "distinct (group_keys key df)" "set (group_keys key df) = key ` set df"
  by (simp_all add: group_keys_def)

lemma groupby_agg_sums:
  "sum_list (map (\<lambda>(k, a). agg_sum a) (groupby_agg key df)) = sum_list (map Total_Sales df)"
proof -
  have "map (\<lambda>(k, a). agg_sum a) (groupby_agg key df)
      = map (\<lambda>k. sum_list (map Total_Sales (filter (\<lambda>r. key r = k) df))) (group_keys key df)"
    by (simp add: groupby_agg_def group_rows_def Let_def)
  then show ?thesis
    using sum_list_by_group[of "group_keys key df" key df Total_Sales] group_keys_props[of key df]
    by simp
qed

lemma groupby_agg_counts:
  "sum_list (map (\<lambda>(k, a). agg_count a) (groupby_agg key df)) = length df"
proof -
  have "map (\<lambda>(k, a). agg_count a) (groupby_agg key df)
      = map (\<lambda>k. length (filter (\<lambda>r. key r = k) df)) (group_keys key df)"
    by (simp add: groupby_agg_def group_rows_def Let_def)
  then show ?thesis
    using length_by_group[of "group_keys key df" key df] group_keys_props[of key df]
    by simp
qed

lemma sum_list_sort_values_desc:
  fixes f :: "'a \<Rightarrow> 'b::comm_monoid_add"
  shows "sum_list (map f (sort_values_desc v xs)) = sum_list (map f xs)"
proof -
  have "mset (map f (sort_values_desc v xs)) = mset (map f xs)"
    by (simp add: sort_values_desc_def)
  then show ?thesis by (metis sum_mset_sum_list)
qed

text \<open>
  C7. Aggregation conservation. For every frame and every grouping key, the per-group sums
  of \<open>Total_Sales\<close> add up to the total of the column, and the per-group counts add up to
  the number of rows. In particular this holds for the two tables that
  \<open>descriptive_statistics\<close> prints, against the total sales and the total number of
  orders it prints. Sums are exact here, so the equality is exact.
\<close>

theorem aggregation_conservation:
  "sum_list (map (\<lambda>(k, a). agg_sum a) (groupby_agg key df)) = sum_list (map Total_Sales df) \<and>
   sum_list (map (\<lambda>(k, a). agg_count a) (groupby_agg key df)) = length df \<and>
   sum_list (map (\<lambda>(k, a). agg_sum a) (category_sales (descriptive_statistics df)))
     = total_sales (descriptive_statistics df) \<and>
   sum_list (map (\<lambda>(k, a). agg_count a) (category_sales (descriptive_statistics df)))
     = total_orders (descriptive_statistics df) \<and>
   sum_list (map (\<lambda>(k, a). agg_sum a) (region_sales (descriptive_statistics df)))
     = total_sales (descriptive_statistics df) \<and>
   sum_list (map (\<lambda>(k, a). agg_count a) (region_sales (descriptive_statistics df)))
     = total_orders (descriptive_statistics df)"
  by (simp add: descriptive_statistics_def sum_list_sort_values_desc
        groupby_agg_sums groupby_agg_counts)

theorem aggregation_conservation_witness:
  "groupby_agg Region three_sales =
     [(''Perth'', \<lparr>agg_sum = 90, agg_mean = 45, agg_count = 2\<rparr>),
      (''Sydney'', \<lparr>agg_sum = 300, agg_mean = 300, agg_count = 1\<rparr>)] \<and>
   sum_list (map (\<lambda>(k, a). agg_sum a) (groupby_agg Region three_sales)) = 390 \<and>
   sum_list (map Total_Sales three_sales) = 390 \<and>
   sum_list (map (\<lambda>(k, a). agg_count a) (groupby_agg Region three_sales)) = 3"
proof -
  have "groupby_agg Region three_sales =
     [(''Perth'', \<lparr>agg_sum = 90, agg_mean = 45, agg_count = 2\<rparr>),
      (''Sydney'', \<lparr>agg_sum = 300, agg_mean = 300, agg_count = 1\<rparr>)]"
    by code_simp
  moreover have "sum_list (map Total_Sales three_sales) = 390"
    by (simp add: three_sales_def sale_def)
  ultimately show ?thesis
    using aggregation_conservation[of Region three_sales] by simp
qed

section \<open>Properties of the generator\<close>

subsection \<open>What the contract gives\<close>

lemma contract_randint:
  assumes "numpy_contract np" "lo < hi"
  shows "length (fst (randint np lo hi n g)) = n"
    and "x \<in> set (fst (randint np lo hi n g)) \<Longrightarrow> lo \<le> x \<and> x < hi"
  using assms unfolding numpy_contract_def by blast+

lemma contract_choice:
  assumes "numpy_contract np" "xs \<noteq> []"
  shows "length (fst (choice np xs n p g)) = n"
    and "set (fst (choice np xs n p g)) \<subseteq> set xs"
  using assms unfolding numpy_contract_def by blast+

lemma contract_uniform:
  assumes "numpy_contract np" "lo < hi"
  shows "length (fst (uniform np lo hi n g)) = n"
    and "x \<in> set (fst (uniform np lo hi n g)) \<Longrightarrow> lo \<le> x \<and> x \<le> hi"
  using assms unfolding numpy_contract_def by blast+

lemma contract_permutation:
  assumes "numpy_contract np"
  shows "length (fst (permutation np n g)) = n"
    and "set (fst (permutation np n g)) = {0..<n}"
  using assms unfolding numpy_contract_def by blast+

lemma products_lookup:
  assumes "cat \<in> set categories"
  obtains names where "map_of products cat = Some names" "names \<noteq> []"
  using assms by (auto simp: categories_def products_def)

lemma assign_products_ok:
  assumes "numpy_contract np" "set cats \<subseteq> set categories"
  shows "\<exists>ps g'. assign_products np pc cats acc g = (Inr (acc @ ps), g') \<and>
           length ps = sum_list (map (\<lambda>c. length (filter (\<lambda>x. x = c) pc)) cats)"
  using assms(2)
proof (induction cats arbitrary: acc g)
  case Nil
  then show ?case by simp
next
  case (Cons cat rest)
  then have "cat \<in> set categories" by simp
  then obtain names where names: "map_of products cat = Some names" "names \<noteq> []"
    by (rule products_lookup)
  define n_cat where "n_cat = length (filter (\<lambda>c. c = cat) pc)"
  obtain drawn g1 where d: "choice np names n_cat None g = (drawn, g1)"
    by (cases "choice np names n_cat None g")
  have len: "length drawn = n_cat"
    using contract_choice(1)[OF assms(1) names(2), where n=n_cat and p=None and g=g] d by simp
  from Cons obtain ps g' where
    rec: "assign_products np pc rest (acc @ drawn) g1 = (Inr ((acc @ drawn) @ ps), g')"
    and l: "length ps = sum_list (map (\<lambda>c. length (filter (\<lambda>x. x = c) pc)) rest)"
    by (metis (no_types, lifting) list.set_intros(2) subset_code(1))
  have "assign_products np pc (cat # rest) acc g = (Inr (acc @ (drawn @ ps)), g')"
    using names d rec by (simp add: n_cat_def)
  moreover have "length (drawn @ ps) = sum_list (map (\<lambda>c. length (filter (\<lambda>x. x = c) pc)) (cat # rest))"
    using len l by (simp add: n_cat_def)
  ultimately show ?case by blast
qed

lemma date_range_ok:
  "0 \<le> n \<Longrightarrow> \<exists>dates. date_range n = Inr dates \<and> length dates = nat n"
  by (auto simp: date_range_def)

subsection \<open>Rounding keeps a price within its bounds\<close>

lemma rint_bounds: "\<lfloor>x\<rfloor> \<le> rint x" "rint x \<le> \<lceil>x\<rceil>"
proof -
  show "\<lfloor>x\<rfloor> \<le> rint x" by (simp add: rint_def Let_def)
  have "rint x \<le> \<lfloor>x\<rfloor> + 1" by (simp add: rint_def Let_def)
  moreover have "rint x = \<lfloor>x\<rfloor>" if "x = of_int \<lfloor>x\<rfloor>"
    using that by (simp add: rint_def Let_def)
  moreover have "\<lceil>x\<rceil> = \<lfloor>x\<rfloor> + 1" if "x \<noteq> of_int \<lfloor>x\<rfloor>"
    using that by (metis ceiling_altdef of_int_floor_cancel)
  ultimately show "rint x \<le> \<lceil>x\<rceil>"
    by (cases "x = of_int \<lfloor>x\<rfloor>") (simp_all add: floor_le_ceiling)
qed

lemma np_round2_bounds:
  assumes "10 \<le> x" "x \<le> 500"
  shows "10 \<le> np_round2 x" "np_round2 x \<le> 500"
proof -
  have "1000 \<le> \<lfloor>x * 100\<rfloor>" using assms(1) by (simp add: le_floor_iff)
  then have lo: "1000 \<le> rint (x * 100)" using rint_bounds(1)[of "x * 100"] by linarith
  have "\<lceil>x * 100\<rceil> \<le> 50000" using assms(2) by (simp add: ceiling_le_iff)
  then have hi: "rint (x * 100) \<le> 50000" using rint_bounds(2)[of "x * 100"] by linarith
  have "(1000::rat) \<le> of_int (rint (x * 100))" using lo by (metis of_int_le_iff of_int_numeral)
  then show "10 \<le> np_round2 x" by (simp add: np_round2_def)
  have "of_int (rint (x * 100)) \<le> (50000::rat)" using hi by (metis of_int_le_iff of_int_numeral)
  then show "np_round2 x \<le> 500" by (simp add: np_round2_def)
qed

subsection \<open>Order identifiers are distinct\<close>

text \<open>Reading the digits back gives the number, so the formatting is injective.\<close>

lemma decode_str_nat:
  "foldl (\<lambda>a c. 10 * a + (of_char c - 48)) (0::nat) (str_nat n) = n"
proof (induction n rule: str_nat.induct)
  case (1 n)
  show ?case
  proof (cases "n < 10")
    case True
    then show ?thesis
      by (subst str_nat.simps) (simp add: digit_char_def)
  next
    case False
    with 1 show ?thesis
      by (subst str_nat.simps) (simp add: digit_char_def)
  qed
qed

lemma decode_zeros:
  "foldl (\<lambda>a c. 10 * a + (of_char c - 48)) (0::nat) (replicate k CHR ''0'') = 0"
  by (induction k) simp_all

lemma decode_format_05d:
  "foldl (\<lambda>a c. 10 * a + (of_char c - 48)) (0::nat) (format_05d i) = i"
  by (simp add: format_05d_def Let_def decode_zeros decode_str_nat)

lemma inj_order_id: "inj order_id"
proof (rule injI)
  fix i j
  assume "order_id i = order_id j"
  then have "format_05d i = format_05d j"
    by (simp add: order_id_def)
  then show "i = j"
    by (metis decode_format_05d)
qed

lemma distinct_order_ids: "distinct (map order_id [1..<n + 1])"
  by (simp add: distinct_map inj_on_subset[OF inj_order_id] del: upt_Suc)

subsection \<open>The generated frame\<close>

text \<open>The columns that the generator hands to the frame constructor.\<close>

lemma generate_columns:
  assumes np: "numpy_contract np" and seed: "0 \<le> seed" "seed < 2 ^ 32" and n: "0 \<le> n"
  shows "\<exists>data g'. generate_sample_data np n seed g = (DataFrame data, g') \<and>
           same_length data \<and>
           col_order_id data = map order_id [1..<nat n + 1] \<and>
           set (col_quantity data) \<subseteq> {1..9} \<and>
           set (col_unit_price data) \<subseteq> {10..500} \<and>
           set (col_product_category data) \<subseteq> set categories"
proof -
  define g1 where "g1 = rng_seed np seed"
  obtain dates where dates: "date_range n = Inr dates" "length dates = nat n"
    using date_range_ok[OF n] by blast
  obtain customer_ids g2 where r1: "randint np 1001 1100 (nat n) g1 = (customer_ids, g2)"
    by (cases "randint np 1001 1100 (nat n) g1")
  obtain pc g3 where r2: "choice np categories (nat n) (Some category_weights) g2 = (pc, g3)"
    by (cases "choice np categories (nat n) (Some category_weights) g2")
  obtain quantity g4 where r3: "randint np 1 10 (nat n) g3 = (quantity, g4)"
    by (cases "randint np 1 10 (nat n) g3")
  obtain prices g5 where r4: "uniform np 10 500 (nat n) g4 = (prices, g5)"
    by (cases "uniform np 10 500 (nat n) g4")
  obtain region g6 where r5: "choice np cities (nat n) (Some city_weights) g5 = (region, g6)"
    by (cases "choice np cities (nat n) (Some city_weights) g5")
  obtain segment g7 where r6: "choice np segments (nat n) (Some segment_weights) g6 = (segment, g7)"
    by (cases "choice np segments (nat n) (Some segment_weights) g6")
  obtain payment g8 where r7: "choice np payments (nat n) (Some payment_weights) g7 = (payment, g8)"
    by (cases "choice np payments (nat n) (Some payment_weights) g7")
  obtain prods g9 where r8: "assign_products np pc categories [] g8 = (Inr prods, g9)"
    and lp: "length prods = sum_list (map (\<lambda>c. length (filter (\<lambda>x. x = c) pc)) categories)"
    using assign_products_ok[OF np subset_refl, of pc "[]" g8] by auto
  obtain indices g10 where r9: "permutation np (nat n) g9 = (indices, g10)"
    by (cases "permutation np (nat n) g9")
  have l1: "length customer_ids = nat n"
    using contract_randint(1)[OF np, where lo=1001 and hi=1100 and n="nat n" and g=g1] r1 by simp
  have l2: "length pc = nat n" and s2: "set pc \<subseteq> set categories"
    using contract_choice[OF np, where xs=categories and n="nat n" and p="Some category_weights" and g=g2] r2
    by (simp_all add: categories_def)
  have l3: "length quantity = nat n" and s3: "\<And>x. x \<in> set quantity \<Longrightarrow> 1 \<le> x \<and> x < 10"
    using contract_randint[OF np, where lo=1 and hi=10 and n="nat n" and g=g3] r3 by simp_all
  have l4: "length prices = nat n" and s4: "\<And>x. x \<in> set prices \<Longrightarrow> 10 \<le> x \<and> x \<le> 500"
    using contract_uniform[OF np, where lo=10 and hi=500 and n="nat n" and g=g4] r4 by simp_all
  have l5: "length region = nat n"
    using contract_choice(1)[OF np, where xs=cities and n="nat n" and p="Some city_weights" and g=g5] r5
    by (simp add: cities_def)
  have l6: "length segment = nat n"
    using contract_choice(1)[OF np, where xs=segments and n="nat n" and p="Some segment_weights" and g=g6] r6
    by (simp add: segments_def)
  have l7: "length payment = nat n"
    using contract_choice(1)[OF np, where xs=payments and n="nat n" and p="Some payment_weights" and g=g7] r7
    by (simp add: payments_def)
  have "distinct categories" by (simp add: categories_def)
  then have l8: "length prods = nat n"
    using length_by_group[of categories "\<lambda>x. x" pc] s2 lp l2 by simp
  have l9: "length indices = nat n" and s9: "set indices = {0..<nat n}"
    using contract_permutation[OF np, where n="nat n" and g=g9] r9 by simp_all
  have inrange: "\<not> (\<exists>i \<in> set indices. length prods \<le> i)"
    using s9 l8 by auto
  define data where "data =
     \<lparr>col_order_id = map order_id [1..<nat n + 1], col_order_date = dates,
      col_customer_id = customer_ids, col_product_category = pc,
      col_product = map (\<lambda>i. prods ! i) indices, col_quantity = quantity,
      col_unit_price = map np_round2 prices, col_region = region,
      col_customer_segment = segment, col_payment_method = payment\<rparr>"
  have gen: "generate_sample_data np n seed g = (DataFrame data, g10)"
    using seed dates(1) r1 r2 r3 r4 r5 r6 r7 r8 r9 inrange
    by (simp add: generate_sample_data_def g1_def[symmetric] data_def Let_def del: upt_Suc)
  have same: "same_length data"
    by (simp add: same_length_def data_def dates l1 l2 l3 l4 l5 l6 l7 l9)
  have q: "set (col_quantity data) \<subseteq> {1..9}"
    using s3 by (force simp: data_def)
  have u: "set (col_unit_price data) \<subseteq> {10..500}"
    using s4 np_round2_bounds by (auto simp: data_def)
  have ids: "col_order_id data = map order_id [1..<nat n + 1]"
    by (simp add: data_def)
  have c: "set (col_product_category data) \<subseteq> set categories"
    using s2 by (simp add: data_def)
  show ?thesis using gen same ids q u c by blast
qed

lemma make_row_cols:
  assumes "same_length data" "i < length (col_order_id data)"
  shows "Quantity (make_row data i) \<in> set (col_quantity data)"
    and "Unit_Price (make_row data i) \<in> set (col_unit_price data)"
    and "Product_Category (make_row data i) \<in> set (col_product_category data)"
    and "Total_Sales (make_row data i) = of_int (Quantity (make_row data i)) * Unit_Price (make_row data i)"
  using assms by (simp_all add: same_length_def make_row_def Let_def)

lemma DataFrame_order_ids:
  assumes "same_length data"
  shows "map Order_ID (map (make_row data) [0..<length (col_order_id data)]) = col_order_id data"
  by (rule nth_equalityI) (simp_all add: make_row_def)

lemma generate_ok:
  assumes np: "numpy_contract np" and seed: "0 \<le> seed" "seed < 2 ^ 32" and n: "0 \<le> n"
  shows "\<exists>df g'. generate_sample_data np n seed g = (Inr df, g') \<and>
           length df = nat n \<and>
           map Order_ID df = map order_id [1..<nat n + 1] \<and>
           (\<forall>r \<in> set df. Quantity r \<in> {1..9} \<and> Unit_Price r \<in> {10..500} \<and>
                          Total_Sales r = of_int (Quantity r) * Unit_Price r \<and>
                          Product_Category r \<in> set categories)"
proof -
  obtain data g' where gen: "generate_sample_data np n seed g = (DataFrame data, g')"
    and same: "same_length data"
    and ids: "col_order_id data = map order_id [1..<nat n + 1]"
    and q: "set (col_quantity data) \<subseteq> {1..9}"
    and u: "set (col_unit_price data) \<subseteq> {10..500}"
    and c: "set (col_product_category data) \<subseteq> set categories"
    using generate_columns[OF assms, of g] by blast
  define df where "df = map (make_row data) [0..<length (col_order_id data)]"
  have df: "DataFrame data = Inr df"
    using same by (simp add: DataFrame_def df_def)
  have len: "length df = nat n"
    by (simp add: df_def ids del: upt_Suc)
  have oid: "map Order_ID df = map order_id [1..<nat n + 1]"
    unfolding df_def DataFrame_order_ids[OF same] by (rule ids)
  have rows: "Quantity r \<in> {1..9} \<and> Unit_Price r \<in> {10..500} \<and>
              Total_Sales r = of_int (Quantity r) * Unit_Price r \<and>
              Product_Category r \<in> set categories" if "r \<in> set df" for r
  proof -
    from that obtain i where i: "i < length (col_order_id data)" "r = make_row data i"
      by (auto simp: df_def)
    show ?thesis
      using make_row_cols[OF same i(1)] q u c unfolding i(2) by blast
  qed
  show ?thesis using gen df len oid rows by auto
qed

subsection \<open>The concrete generator\<close>

lemma length_raw_draws: "length (raw_draws n g) = n"
  by (simp add: raw_draws_def)

lemma test_rng_contract: "numpy_contract test_rng"
  unfolding numpy_contract_def
proof (intro conjI allI impI ballI)
  fix lo hi :: int and n g x
  assume "lo < hi"
  show "length (fst (randint test_rng lo hi n g)) = n"
    by (simp add: test_rng_def length_raw_draws)
  assume "x \<in> set (fst (randint test_rng lo hi n g))"
  then obtain r where "x = lo + r mod (hi - lo)"
    by (auto simp: test_rng_def)
  moreover have "0 \<le> r mod (hi - lo)" "r mod (hi - lo) < hi - lo"
    using \<open>lo < hi\<close> by simp_all
  ultimately show "lo \<le> x" "x < hi"
    by linarith+
next
  fix xs :: "string list" and n p g
  assume "xs \<noteq> []"
  show "length (fst (choice test_rng xs n p g)) = n"
    by (simp add: test_rng_def length_raw_draws)
  have "xs ! nat (r mod int (length xs)) \<in> set xs" for r
    using \<open>xs \<noteq> []\<close> by (intro nth_mem) (simp add: nat_less_iff)
  then show "set (fst (choice test_rng xs n p g)) \<subseteq> set xs"
    by (auto simp: test_rng_def)
next
  fix lo hi :: rat and n g x
  assume "lo < hi"
  show "length (fst (uniform test_rng lo hi n g)) = n"
    by (simp add: test_rng_def length_raw_draws)
  assume "x \<in> set (fst (uniform test_rng lo hi n g))"
  then obtain r :: int where x: "x = lo + (hi - lo) * of_int (r mod 1000) / 1000"
    by (auto simp: test_rng_def)
  have "0 \<le> r mod 1000" "r mod 1000 \<le> 1000" by simp_all
  then have t: "(0::rat) \<le> of_int (r mod 1000) / 1000" "of_int (r mod 1000) / 1000 \<le> (1::rat)"
    by simp_all
  have "0 \<le> (hi - lo) * (of_int (r mod 1000) / 1000)"
    using t(1) \<open>lo < hi\<close> by (intro mult_nonneg_nonneg) simp_all
  then show "lo \<le> x" unfolding x by simp
  have "(hi - lo) * (of_int (r mod 1000) / 1000) \<le> (hi - lo) * 1"
    using t(2) \<open>lo < hi\<close> by (intro mult_left_mono) simp_all
  then show "x \<le> hi" unfolding x by simp
next
  fix n g
  show "length (fst (permutation test_rng n g)) = n"
    by (simp add: test_rng_def Let_def)
  have "set (drop k [0..<n] @ take k [0..<n]) = {0..<n}" for k
    by (metis append_take_drop_id set_append set_upt sup_commute)
  then show "set (fst (permutation test_rng n g)) = {0..<n}"
    by (simp add: test_rng_def Let_def)
qed

lemma generate_two_orders: "generate_sample_data test_rng 2 5 0 = (Inr two_orders, 22)"
  by code_simp

text \<open>
  C6. Determinism. The table that \<open>generate_sample_data\<close> returns is a function of
  \<open>n_orders\<close> and \<open>seed\<close> alone: whatever the state of the global generator at the call,
  the result (a table, or the error) is the same.
\<close>

theorem generate_deterministic:
  "fst (generate_sample_data np n_orders seed g) = fst (generate_sample_data np n_orders seed g')"
  by (simp add: generate_sample_data_def)

theorem generate_deterministic_witness:
  "fst (generate_sample_data test_rng 2 5 0) = fst (generate_sample_data test_rng 2 5 1000)"
  using generate_deterministic[of test_rng 2 5 0 1000] by simp

text \<open>
  C5 (as the code has it). The generator has no check of the record count of its own.
  For a seed that numpy accepts: with \<open>n_orders = 0\<close> it returns an empty table, no error;
  with \<open>n_orders < 0\<close> it ends in the ValueError that building the date range raises, after
  seeding and before any random draw (the generator state is the freshly seeded one).
\<close>

theorem generate_empty_or_ValueError:
  assumes "numpy_contract np" and "0 \<le> seed" and "seed < 2 ^ 32"
  shows "fst (generate_sample_data np 0 seed g) = Inr [] \<and>
         (\<forall>n<0. generate_sample_data np n seed g = (Inl ValueError, rng_seed np seed))"
proof -
  have "fst (generate_sample_data np 0 seed g) = Inr []"
    using generate_ok[OF assms, of 0 g] by auto
  moreover have "generate_sample_data np n seed g = (Inl ValueError, rng_seed np seed)" if "n < 0" for n
    using that assms(2,3) by (simp add: generate_sample_data_def date_range_def)
  ultimately show ?thesis by blast
qed

theorem generate_empty_or_ValueError_witness:
  "numpy_contract test_rng \<and> (0::int) \<le> 42 \<and> (42::int) < 2 ^ 32 \<and>
   fst (generate_sample_data test_rng 0 42 0) = Inr [] \<and>
   generate_sample_data test_rng (- 1) 42 0 = (Inl ValueError, 42)"
proof -
  have s: "(0::int) \<le> 42" "(42::int) < 2 ^ 32" by simp_all
  have "generate_sample_data test_rng (- 1) 42 0 = (Inl ValueError, rng_seed test_rng 42)"
    using generate_empty_or_ValueError[OF test_rng_contract s, of 0] by simp
  then show ?thesis
    using test_rng_contract generate_empty_or_ValueError[OF test_rng_contract s, of 0]
    by (simp add: test_rng_def)
qed

text \<open>
  C5 as stated fails: the two kinds of invalid count are not treated alike. Zero is not
  rejected, and a negative count does not give an empty table.
\<close>

theorem record_count_counterexample:
  "generate_sample_data test_rng 0 42 0 = (Inr [], 43) \<and>
   generate_sample_data test_rng (- 1) 42 0 = (Inl ValueError, 42)"
  by code_simp

text \<open>
  C1 (where the code departs from it). The product names are drawn category by category
  and then permuted at random, so a row's product comes from the category of some row,
  not of its own. With two orders, seed 5 and the draws of \<open>test_rng\<close>: the categories
  drawn are Sports and Clothing; one product is drawn for Clothing (Jacket), then one for
  Sports (Bike); the permutation drawn is the identity; the Sports row gets Jacket and the
  Clothing row gets Bike.
\<close>

theorem product_outside_category:
  "fst (generate_sample_data test_rng 2 5 0) = Inr two_orders \<and>
   map Product_Category two_orders = [''Sports'', ''Clothing''] \<and>
   map Product two_orders = [''Jacket'', ''Bike''] \<and>
   map_of products ''Sports'' =
     Some [''Bike'', ''Yoga Mat'', ''Dumbbells'', ''Tennis Racket'', ''Running Shoes''] \<and>
   ''Jacket'' \<notin> set [''Bike'', ''Yoga Mat'', ''Dumbbells'', ''Tennis Racket'', ''Running Shoes''] \<and>
   map_of products ''Clothing'' = Some [''T-Shirt'', ''Jeans'', ''Jacket'', ''Dress'', ''Shoes''] \<and>
   ''Bike'' \<notin> set [''T-Shirt'', ''Jeans'', ''Jacket'', ''Dress'', ''Shoes'']"
  by (simp add: generate_two_orders two_orders_def products_def)

section \<open>Properties of the cleaner\<close>

lemma select_mask_Nil [simp]: "select_mask [] bs = []"
  by (simp add: select_mask_def)

lemma select_mask_Cons [simp]:
  "select_mask (r # rs) (b # bs) = (if b then r # select_mask rs bs else select_mask rs bs)"
  by (simp add: select_mask_def)

lemma select_mask_map: "select_mask rows (map P rows) = filter P rows"
  by (induction rows) simp_all

lemma upt_Suc_shift: "[0..<Suc n] = 0 # map Suc [0..<n]"
  by (simp add: upt_conv_Cons map_Suc_upt del: upt_Suc)

lemma length_duplicated [simp]: "length (duplicated seen rows) = length rows"
  by (induction rows arbitrary: seen) simp_all

lemma select_not_duplicated:
  "select_mask rows (map Not (duplicated seen rows)) =
     map ((!) rows) (filter (\<lambda>i. rows ! i \<notin> set seen \<and> (\<forall>j<i. rows ! j \<noteq> rows ! i)) [0..<length rows])"
proof (induction rows arbitrary: seen)
  case Nil
  then show ?case by simp
next
  case (Cons r rs)
  have eq: "(\<forall>j<Suc i. (r # rs) ! j \<noteq> rs ! i) \<longleftrightarrow> (r \<noteq> rs ! i \<and> (\<forall>j<i. rs ! j \<noteq> rs ! i))" for i
    by (auto simp: less_Suc_eq_0_disj)
  have "filter (\<lambda>i. (r # rs) ! i \<notin> set seen \<and> (\<forall>j<i. (r # rs) ! j \<noteq> (r # rs) ! i)) (map Suc [0..<length rs])
      = map Suc (filter (\<lambda>i. rs ! i \<notin> set (r # seen) \<and> (\<forall>j<i. rs ! j \<noteq> rs ! i)) [0..<length rs])"
    unfolding filter_map by (rule arg_cong[where f="map Suc"], rule filter_cong) (auto simp: eq)
  then show ?case
    unfolding length_Cons upt_Suc_shift
    by (simp add: Cons.IH del: upt_Suc) 
qed

lemma count_duplicated:
  "length (select_mask rows (map Not (duplicated seen rows))) + length (filter (\<lambda>b. b) (duplicated seen rows))
     = length rows"
  by (induction rows arbitrary: seen) simp_all

lemma filter_map_nth:
  "filter P (map ((!) rows) (filter Q is)) = map ((!) rows) (filter (\<lambda>i. Q i \<and> P (rows ! i)) is)"
  by (induction "is") auto

text \<open>What the cleaner does to the world, step by step.\<close>

lemma data_cleaning_steps:
  fixes w :: world
  assumes "df < length (frames w)"
  defines "rows \<equiv> frames w ! df"
  defines "t1 \<equiv> select_mask rows (map Not (duplicated [] rows))"
  defines "t2 \<equiv> filter (\<lambda>r. Quantity r > 0) t1"
  defines "t3 \<equiv> filter (\<lambda>r. Unit_Price r > 0) t2"
  defines "t4 \<equiv> filter (\<lambda>r. Total_Sales r > 0) t3"
  shows "data_cleaning df w =
           (length (frames w) + 3,
            w\<lparr>frames := frames w @ [t1, t2, t3, t4],
              stdout := stdout w @
                [Text banner, Text ''STEP 1: DATA CLEANING'', Text banner,
                 MissingValues, DataTypes,
                 DuplicatesRemoved (int (length rows) - int (length t1)),
                 RecordsAfterCleaning (length t4)]\<rparr>)"
  using assms(1)
  unfolding data_cleaning_def drop_duplicates_def getitem_mask_def alloc_def print_def Let_def
    t4_def t3_def t2_def t1_def rows_def
  by (simp add: nth_append select_mask_map)

lemma no_duplicates_unchanged:
  assumes "distinct rows"
  shows "select_mask rows (map Not (duplicated [] rows)) = rows"
proof -
  have "filter (\<lambda>i. rows ! i \<notin> set [] \<and> (\<forall>j<i. rows ! j \<noteq> rows ! i)) [0..<length rows]
          = [0..<length rows]"
    using assms by (auto simp: filter_id_conv nth_eq_iff_index_eq)
  then show ?thesis
    unfolding select_not_duplicated by (simp add: map_nth)
qed

subsection \<open>The cleaner on the sample frames\<close>

lemma dirty_eval:
  "data_cleaning 0 (world_of dirty_sales) =
     (4, \<lparr>frames = [dirty_sales,
                     [dirty_sales ! 0, dirty_sales ! 1, dirty_sales ! 3],
                     [dirty_sales ! 0, dirty_sales ! 3],
                     [dirty_sales ! 0, dirty_sales ! 3],
                     [dirty_sales ! 0, dirty_sales ! 3]],
          stdout = [Text banner, Text ''STEP 1: DATA CLEANING'', Text banner,
                    MissingValues, DataTypes,
                    DuplicatesRemoved 1, RecordsAfterCleaning 2]\<rparr>)"
  by code_simp

lemma one_sale_eval: "data_cleaning 0 (world_of one_sale) =
   (4, \<lparr>frames = [one_sale, one_sale, one_sale, one_sale, one_sale],
        stdout = [Text banner, Text ''STEP 1: DATA CLEANING'', Text banner,
                 MissingValues, DataTypes,
                 DuplicatesRemoved 0, RecordsAfterCleaning 1]\<rparr>)"
  by code_simp

lemma one_sale_one_invalid_eval: "data_cleaning 0 (world_of one_sale_one_invalid) =
   (4, \<lparr>frames = [one_sale_one_invalid, one_sale_one_invalid, one_sale, one_sale, one_sale],
        stdout = [Text banner, Text ''STEP 1: DATA CLEANING'', Text banner,
                 MissingValues, DataTypes,
                 DuplicatesRemoved 0, RecordsAfterCleaning 1]\<rparr>)"
  by code_simp

text \<open>
  C3 (as the code has it). \<open>data_cleaning\<close> returns one value: a reference to a frame that
  did not exist before the call and holds the cleaned table. Every frame that existed
  before the call, the caller's among them, is unchanged. No removal report is returned:
  the number of duplicates removed and the number of records left are printed, and that
  is all that is printed about removals.
\<close>

theorem cleaning_returns_new_table:
  fixes w :: world
  assumes "df < length (frames w)"
  shows "case data_cleaning df w of (r, w') \<Rightarrow>
           length (frames w) \<le> r \<and> r < length (frames w') \<and>
           take (length (frames w)) (frames w') = frames w \<and>
           frames w' ! df = frames w ! df \<and>
           stdout w' = stdout w @
             [Text banner, Text ''STEP 1: DATA CLEANING'', Text banner,
              MissingValues, DataTypes,
              DuplicatesRemoved (int (length (filter (\<lambda>b. b) (duplicated [] (frames w ! df))))),
              RecordsAfterCleaning (length (frames w' ! r))]"
proof -
  have "int (length (frames w ! df))
          - int (length (select_mask (frames w ! df) (map Not (duplicated [] (frames w ! df)))))
        = int (length (filter (\<lambda>b. b) (duplicated [] (frames w ! df))))"
    using count_duplicated[of "frames w ! df" "[]"] by linarith
  then show ?thesis
    using assms unfolding data_cleaning_steps[OF assms]
    by (simp add: nth_append)
qed

theorem cleaning_returns_new_table_witness:
  "0 < length (frames (world_of dirty_sales)) \<and>
   fst (data_cleaning 0 (world_of dirty_sales)) = 4 \<and>
   length (frames (snd (data_cleaning 0 (world_of dirty_sales)))) = 5 \<and>
   frames (snd (data_cleaning 0 (world_of dirty_sales))) ! 0 = dirty_sales \<and>
   frames (snd (data_cleaning 0 (world_of dirty_sales))) ! 4 = [dirty_sales ! 0, dirty_sales ! 3] \<and>
   stdout (snd (data_cleaning 0 (world_of dirty_sales))) =
     [Text banner, Text ''STEP 1: DATA CLEANING'', Text banner,
      MissingValues, DataTypes,
      DuplicatesRemoved 1, RecordsAfterCleaning 2]"
proof -
  have h: "0 < length (frames (world_of dirty_sales))"
    by (simp add: world_of_def)
  show ?thesis
    using h cleaning_returns_new_table[OF h] unfolding dirty_eval by simp
qed

text \<open>
  C3 as stated fails: the number of invalid rows removed is not part of what the cleaner
  returns or prints. On \<open>one_sale\<close> and on \<open>one_sale_one_invalid\<close> it returns the same
  reference to the same table and prints the same lines, yet the selections remove no
  row from the first and one row from the second.
\<close>

theorem cleaning_report_counterexample:
  "(let (ra, wa) = data_cleaning 0 (world_of one_sale);
        (rb, wb) = data_cleaning 0 (world_of one_sale_one_invalid)
    in ra = rb \<and> frames wa ! ra = frames wb ! rb \<and> stdout wa = stdout wb \<and>
       int (length (frames wa ! 1)) - int (length (frames wa ! ra)) = 0 \<and>
       int (length (frames wb ! 1)) - int (length (frames wb ! rb)) = 1)"
  unfolding one_sale_eval one_sale_one_invalid_eval by (simp add: one_sale_def one_sale_one_invalid_def)

text \<open>
  C4. With \<open>rows\<close> the caller's frame: the first frame the cleaner builds holds the rows
  that equal no earlier row, in row order; the frame it returns holds those of them with
  positive quantity, unit price and total sales; so the returned frame is \<open>rows\<close>
  restricted, in order, to the rows that are first occurrences and valid; and every row
  of it has positive quantity, unit price and total sales.
\<close>

theorem cleaning_removes_duplicates_then_invalid:
  fixes w :: world
  assumes "df < length (frames w)" and "data_cleaning df w = (r, w')"
  defines "rows \<equiv> frames w ! df"
  shows "frames w' ! length (frames w) =
           map ((!) rows) (filter (\<lambda>i. \<forall>j<i. rows ! j \<noteq> rows ! i) [0..<length rows]) \<and>
         frames w' ! r =
           filter (\<lambda>x. Quantity x > 0 \<and> Unit_Price x > 0 \<and> Total_Sales x > 0)
             (frames w' ! length (frames w)) \<and>
         frames w' ! r =
           map ((!) rows)
             (filter (\<lambda>i. (\<forall>j<i. rows ! j \<noteq> rows ! i) \<and> Quantity (rows ! i) > 0 \<and>
                           Unit_Price (rows ! i) > 0 \<and> Total_Sales (rows ! i) > 0)
                [0..<length rows]) \<and>
         (\<forall>x \<in> set (frames w' ! r). Quantity x > 0 \<and> Unit_Price x > 0 \<and> Total_Sales x > 0)"
proof -
  define t1 where "t1 = select_mask rows (map Not (duplicated [] rows))"
  define t4 where "t4 = filter (\<lambda>r. Total_Sales r > 0)
                          (filter (\<lambda>r. Unit_Price r > 0) (filter (\<lambda>r. Quantity r > 0) t1))"
  have r: "r = length (frames w) + 3"
    and first: "frames w' ! length (frames w) = t1"
    and last: "frames w' ! r = t4"
    using assms(2) unfolding data_cleaning_steps[OF assms(1)] t1_def t4_def rows_def
    by (auto simp: nth_append)
  have t1: "t1 = map ((!) rows) (filter (\<lambda>i. \<forall>j<i. rows ! j \<noteq> rows ! i) [0..<length rows])"
    unfolding t1_def select_not_duplicated by simp
  have t4: "t4 = filter (\<lambda>x. Quantity x > 0 \<and> Unit_Price x > 0 \<and> Total_Sales x > 0) t1"
    unfolding t4_def by (simp add: conj_commute conj_left_commute)
  have idx: "t4 = map ((!) rows)
             (filter (\<lambda>i. (\<forall>j<i. rows ! j \<noteq> rows ! i) \<and> Quantity (rows ! i) > 0 \<and>
                           Unit_Price (rows ! i) > 0 \<and> Total_Sales (rows ! i) > 0)
                [0..<length rows])"
    unfolding t4 t1 filter_map_nth by simp
  have valid: "\<forall>x \<in> set t4. Quantity x > 0 \<and> Unit_Price x > 0 \<and> Total_Sales x > 0"
    unfolding t4 by simp
  show ?thesis
    unfolding first last using t1 t4 idx valid by blast
qed

theorem cleaning_removes_duplicates_then_invalid_witness:
  "0 < length (frames (world_of dirty_sales)) \<and>
   data_cleaning 0 (world_of dirty_sales) =
     (4, \<lparr>frames = [dirty_sales,
                     [dirty_sales ! 0, dirty_sales ! 1, dirty_sales ! 3],
                     [dirty_sales ! 0, dirty_sales ! 3],
                     [dirty_sales ! 0, dirty_sales ! 3],
                     [dirty_sales ! 0, dirty_sales ! 3]],
          stdout = [Text banner, Text ''STEP 1: DATA CLEANING'', Text banner,
                    MissingValues, DataTypes,
                    DuplicatesRemoved 1, RecordsAfterCleaning 2]\<rparr>) \<and>
   [dirty_sales ! 0, dirty_sales ! 3] =
     map ((!) dirty_sales)
       (filter (\<lambda>i. (\<forall>j<i. dirty_sales ! j \<noteq> dirty_sales ! i) \<and> Quantity (dirty_sales ! i) > 0 \<and>
                     Unit_Price (dirty_sales ! i) > 0 \<and> Total_Sales (dirty_sales ! i) > 0)
          [0..<length dirty_sales]) \<and>
   map Quantity [dirty_sales ! 0, dirty_sales ! 3] = [2, 3] \<and>
   map Unit_Price [dirty_sales ! 0, dirty_sales ! 3] = [15, 20] \<and>
   map Total_Sales [dirty_sales ! 0, dirty_sales ! 3] = [30, 60]"
proof -
  have h: "0 < length (frames (world_of dirty_sales))"
    by (simp add: world_of_def)
  have inst: "[dirty_sales ! 0, dirty_sales ! 3] =
     map ((!) dirty_sales)
       (filter (\<lambda>i. (\<forall>j<i. dirty_sales ! j \<noteq> dirty_sales ! i) \<and> Quantity (dirty_sales ! i) > 0 \<and>
                     Unit_Price (dirty_sales ! i) > 0 \<and> Total_Sales (dirty_sales ! i) > 0)
          [0..<length dirty_sales])"
    using cleaning_removes_duplicates_then_invalid[OF h dirty_eval, THEN conjunct2, THEN conjunct2, THEN conjunct1]
    by (simp add: world_of_def)
  have v: "map Quantity [dirty_sales ! 0, dirty_sales ! 3] = [2, 3]"
          "map Unit_Price [dirty_sales ! 0, dirty_sales ! 3] = [15, 20]"
          "map Total_Sales [dirty_sales ! 0, dirty_sales ! 3] = [30, 60]"
    by (simp_all add: dirty_sales_def sale_def)
  show ?thesis by (intro conjI h dirty_eval inst v)
qed

text \<open>
  C10. For every generator that meets numpy's contract, every \<open>n_orders \<ge> 1\<close> and every
  seed that numpy accepts, the generator returns a table of \<open>n_orders\<close> rows whose order
  identifiers are pairwise distinct, whose quantities lie in 1..9 and whose unit prices
  lie in 10..500, with positive total sales; and the cleaner applied to a frame holding
  that table removes nothing: each of the four frames it builds is the table again, it
  prints that 0 duplicates were removed and that \<open>n_orders\<close> records are left.
\<close>

theorem cleaning_generated_table_is_identity:
  assumes "numpy_contract np" and "1 \<le> n" and "0 \<le> seed" and "seed < 2 ^ 32"
  shows "\<exists>tbl. fst (generate_sample_data np n seed g) = Inr tbl \<and>
           length tbl = nat n \<and>
           distinct (map Order_ID tbl) \<and>
           (\<forall>r \<in> set tbl. 1 \<le> Quantity r \<and> Quantity r \<le> 9 \<and>
                          10 \<le> Unit_Price r \<and> Unit_Price r \<le> 500 \<and> 0 < Total_Sales r) \<and>
           (\<forall>(w :: world) df. df < length (frames w) \<longrightarrow> frames w ! df = tbl \<longrightarrow>
              data_cleaning df w =
                (length (frames w) + 3,
                 w\<lparr>frames := frames w @ [tbl, tbl, tbl, tbl],
                   stdout := stdout w @
                     [Text banner, Text ''STEP 1: DATA CLEANING'', Text banner,
                      MissingValues, DataTypes,
                      DuplicatesRemoved 0, RecordsAfterCleaning (nat n)]\<rparr>))"
proof -
  from generate_ok[OF assms(1,3,4), of n g] assms(2)
  obtain tbl where gen: "fst (generate_sample_data np n seed g) = Inr tbl"
    and len: "length tbl = nat n"
    and ids: "map Order_ID tbl = map order_id [1..<nat n + 1]"
    and rows: "\<forall>r \<in> set tbl. Quantity r \<in> {1..9} \<and> Unit_Price r \<in> {10..500} \<and>
                 Total_Sales r = of_int (Quantity r) * Unit_Price r"
    by auto
  have d: "distinct (map Order_ID tbl)"
    unfolding ids by (rule distinct_order_ids)
  then have dt: "distinct tbl"
    by (simp add: distinct_map)
  have pos: "0 < Total_Sales r" if "r \<in> set tbl" for r
  proof -
    have "1 \<le> Quantity r" "10 \<le> Unit_Price r"
      and t: "Total_Sales r = of_int (Quantity r) * Unit_Price r"
      using rows that by auto
    then have "(0::rat) < of_int (Quantity r)" "0 < Unit_Price r" by simp_all
    then show ?thesis unfolding t by (rule mult_pos_pos)
  qed
  have bounds: "\<forall>r \<in> set tbl. 1 \<le> Quantity r \<and> Quantity r \<le> 9 \<and>
                  10 \<le> Unit_Price r \<and> Unit_Price r \<le> 500 \<and> 0 < Total_Sales r"
    using rows pos by auto
  have t1: "select_mask tbl (map Not (duplicated [] tbl)) = tbl"
    using dt by (rule no_duplicates_unchanged)
  have f1: "filter (\<lambda>r. 0 < Quantity r) tbl = tbl"
    and f2: "filter (\<lambda>r. 0 < Unit_Price r) tbl = tbl"
    and f3: "filter (\<lambda>r. 0 < Total_Sales r) tbl = tbl"
    using bounds by (auto simp: filter_id_conv)
  have clean: "data_cleaning df w =
           (length (frames w) + 3,
            w\<lparr>frames := frames w @ [tbl, tbl, tbl, tbl],
              stdout := stdout w @
                [Text banner, Text ''STEP 1: DATA CLEANING'', Text banner,
                 MissingValues, DataTypes,
                 DuplicatesRemoved 0, RecordsAfterCleaning (nat n)]\<rparr>)"
    if "df < length (frames w)" "frames w ! df = tbl" for w :: world and df
    unfolding data_cleaning_steps[OF that(1)] that(2) t1 f1 f2 f3 by (simp add: len)
  show ?thesis
    using gen len d bounds clean by blast
qed

theorem cleaning_generated_table_is_identity_witness:
  "numpy_contract test_rng \<and>
   fst (generate_sample_data test_rng 2 5 0) = Inr two_orders \<and>
   map Order_ID two_orders = [''ORD-00001'', ''ORD-00002''] \<and>
   map Quantity two_orders = [2, 6] \<and>
   map Unit_Price two_orders = [15161 / 100, 13593 / 100] \<and>
   data_cleaning 0 (world_of two_orders) =
     (4, \<lparr>frames = [two_orders, two_orders, two_orders, two_orders, two_orders],
          stdout = [Text banner, Text ''STEP 1: DATA CLEANING'', Text banner,
                    MissingValues, DataTypes,
                    DuplicatesRemoved 0, RecordsAfterCleaning 2]\<rparr>)"
proof -
  have gen: "fst (generate_sample_data test_rng 2 5 0) = Inr two_orders"
    by (simp add: generate_two_orders)
  obtain tbl where tbl: "fst (generate_sample_data test_rng 2 5 0) = Inr tbl"
    and clean: "\<forall>(w :: world) df. df < length (frames w) \<longrightarrow> frames w ! df = tbl \<longrightarrow>
              data_cleaning df w =
                (length (frames w) + 3,
                 w\<lparr>frames := frames w @ [tbl, tbl, tbl, tbl],
                   stdout := stdout w @
                     [Text banner, Text ''STEP 1: DATA CLEANING'', Text banner,
                      MissingValues, DataTypes,
                      DuplicatesRemoved 0, RecordsAfterCleaning (nat 2)]\<rparr>)"
    using cleaning_generated_table_is_identity[OF test_rng_contract, of 2 5 0] by auto
  have eq: "tbl = two_orders"
    using tbl gen by simp
  have c: "data_cleaning 0 (world_of two_orders) =
     (4, \<lparr>frames = [two_orders, two_orders, two_orders, two_orders, two_orders],
          stdout = [Text banner, Text ''STEP 1: DATA CLEANING'', Text banner,
                    MissingValues, DataTypes,
                    DuplicatesRemoved 0, RecordsAfterCleaning 2]\<rparr>)"
    using clean[rule_format, of 0 "world_of two_orders"] unfolding eq
    by (simp add: world_of_def)
  have v: "map Order_ID two_orders = [''ORD-00001'', ''ORD-00002'']"
    "map Quantity two_orders = [2, 6]"
    "map Unit_Price two_orders = [15161 / 100, 13593 / 100]"
    by (simp_all add: two_orders_def)
  show ?thesis by (intro conjI test_rng_contract gen v c)
qed

section \<open>Properties of the insights\<close>

lemma argmax_from_mem: "argmax_from best xs \<in> set (best # xs)"
  by (induction xs arbitrary: best) auto

lemma argmax_from_max: "kv \<in> set (best # xs) \<Longrightarrow> snd kv \<le> snd (argmax_from best xs)"
proof (induction xs arbitrary: best kv)
  case Nil
  then show ?case by simp
next
  case (Cons a xs)
  have mono: "snd b \<le> snd (argmax_from b xs)" for b
    by (rule Cons.IH) simp
  have tail: "snd kv \<le> snd (argmax_from b xs)" if "kv \<in> set xs" for b
    using that by (intro Cons.IH) simp
  consider "kv = best" | "kv = a" | "kv \<in> set xs"
    using Cons.prems by auto
  then show ?case
  proof cases
    case 1
    show ?thesis
    proof (cases "snd best < snd a")
      case True
      then show ?thesis using mono[of a] 1 by simp
    next
      case False
      then show ?thesis using mono[of best] 1 by simp
    qed
  next
    case 2
    show ?thesis
    proof (cases "snd best < snd a")
      case True
      then show ?thesis using mono[of a] 2 by simp
    next
      case False
      then show ?thesis using mono[of best] 2 by simp
    qed
  next
    case 3
    then show ?thesis using tail by simp
  qed
qed

lemma groupby_sum_mem:
  "(k, v) \<in> set (groupby_sum key df) \<longleftrightarrow>
     k \<in> key ` set df \<and> v = sum_list (map Total_Sales (group_rows key k df))"
  by (auto simp: groupby_sum_def group_keys_props)

lemma groupby_sum_nonempty:
  assumes "df \<noteq> []"
  shows "groupby_sum key df \<noteq> []"
proof -
  have "set (group_keys key df) \<noteq> {}"
    using assms by (simp add: group_keys_props)
  then show ?thesis by (auto simp: groupby_sum_def)
qed

text \<open>The argmax of one grouping.\<close>

lemma idxmax_groupby_sum:
  assumes "df \<noteq> []"
  shows "\<exists>k. idxmax (groupby_sum key df) = Inr k \<and> k \<in> key ` set df \<and>
             series_max (groupby_sum key df)
               = Some (sum_list (map Total_Sales (group_rows key k df))) \<and>
             (\<forall>r \<in> set df. sum_list (map Total_Sales (group_rows key (key r) df))
                             \<le> sum_list (map Total_Sales (group_rows key k df)))"
proof -
  obtain kv rest where s: "groupby_sum key df = kv # rest"
    using groupby_sum_nonempty[OF assms, of key] by (cases "groupby_sum key df") auto
  define best where "best = argmax_from kv rest"
  have "best \<in> set (groupby_sum key df)"
    unfolding best_def s by (rule argmax_from_mem)
  then have k: "fst best \<in> key ` set df"
    and v: "snd best = sum_list (map Total_Sales (group_rows key (fst best) df))"
    using groupby_sum_mem[of "fst best" "snd best" key df] by simp_all
  have le: "sum_list (map Total_Sales (group_rows key (key r) df)) \<le> snd best" if "r \<in> set df" for r
  proof -
    have "(key r, sum_list (map Total_Sales (group_rows key (key r) df))) \<in> set (kv # rest)"
      using that groupby_sum_mem[of "key r" _ key df] unfolding s[symmetric] by blast
    from argmax_from_max[OF this] show ?thesis by (simp add: best_def)
  qed
  have "idxmax (groupby_sum key df) = Inr (fst best)"
    by (simp add: idxmax_def s best_def)
  moreover have "series_max (groupby_sum key df) = Some (snd best)"
    by (simp add: series_max_def s best_def)
  ultimately show ?thesis using k v le by auto
qed

lemma three_insights:
  "key_insights three_sales =
     Inr \<lparr>best_category = ''Sports'', best_category_sales = Some 300,
          top_region = ''Sydney'', top_region_sales = Some 300,
          top_product = ''Bike'', top_product_sales = Some 300,
          top_segment = ''Regular'', quarterly = [(1, 390)]\<rparr>"
  by code_simp

text \<open>
  C8. Argmax correctness. On a non-empty frame \<open>key_insights\<close> returns its insights, and
  for each of the four groupings (category, region, product, segment) the key it reports
  occurs in the frame and the total sales of its group are at least the total sales of
  the group of every row; for category, region and product the sales it reports are the
  total sales of the reported key's group.
\<close>

theorem argmax_correct:
  assumes "df \<noteq> []"
  shows "\<exists>ins. key_insights df = Inr ins \<and>
    best_category ins \<in> Product_Category ` set df \<and>
    best_category_sales ins
      = Some (sum_list (map Total_Sales (group_rows Product_Category (best_category ins) df))) \<and>
    (\<forall>r \<in> set df. sum_list (map Total_Sales (group_rows Product_Category (Product_Category r) df))
                   \<le> sum_list (map Total_Sales (group_rows Product_Category (best_category ins) df))) \<and>
    top_region ins \<in> Region ` set df \<and>
    top_region_sales ins
      = Some (sum_list (map Total_Sales (group_rows Region (top_region ins) df))) \<and>
    (\<forall>r \<in> set df. sum_list (map Total_Sales (group_rows Region (Region r) df))
                   \<le> sum_list (map Total_Sales (group_rows Region (top_region ins) df))) \<and>
    top_product ins \<in> Product ` set df \<and>
    top_product_sales ins
      = Some (sum_list (map Total_Sales (group_rows Product (top_product ins) df))) \<and>
    (\<forall>r \<in> set df. sum_list (map Total_Sales (group_rows Product (Product r) df))
                   \<le> sum_list (map Total_Sales (group_rows Product (top_product ins) df))) \<and>
    top_segment ins \<in> Customer_Segment ` set df \<and>
    (\<forall>r \<in> set df. sum_list (map Total_Sales (group_rows Customer_Segment (Customer_Segment r) df))
                   \<le> sum_list (map Total_Sales (group_rows Customer_Segment (top_segment ins) df)))"
proof -
  obtain bc where bc: "idxmax (groupby_sum Product_Category df) = Inr bc"
      "bc \<in> Product_Category ` set df"
      "series_max (groupby_sum Product_Category df)
         = Some (sum_list (map Total_Sales (group_rows Product_Category bc df)))"
      "\<forall>r \<in> set df. sum_list (map Total_Sales (group_rows Product_Category (Product_Category r) df))
                   \<le> sum_list (map Total_Sales (group_rows Product_Category bc df))"
    using idxmax_groupby_sum[OF assms, of Product_Category] by blast
  obtain tr where tr: "idxmax (groupby_sum Region df) = Inr tr"
      "tr \<in> Region ` set df"
      "series_max (groupby_sum Region df)
         = Some (sum_list (map Total_Sales (group_rows Region tr df)))"
      "\<forall>r \<in> set df. sum_list (map Total_Sales (group_rows Region (Region r) df))
                   \<le> sum_list (map Total_Sales (group_rows Region tr df))"
    using idxmax_groupby_sum[OF assms, of Region] by blast
  obtain tp where tp: "idxmax (groupby_sum Product df) = Inr tp"
      "tp \<in> Product ` set df"
      "series_max (groupby_sum Product df)
         = Some (sum_list (map Total_Sales (group_rows Product tp df)))"
      "\<forall>r \<in> set df. sum_list (map Total_Sales (group_rows Product (Product r) df))
                   \<le> sum_list (map Total_Sales (group_rows Product tp df))"
    using idxmax_groupby_sum[OF assms, of Product] by blast
  obtain ts where ts: "idxmax (groupby_sum Customer_Segment df) = Inr ts"
      "ts \<in> Customer_Segment ` set df"
      "\<forall>r \<in> set df. sum_list (map Total_Sales (group_rows Customer_Segment (Customer_Segment r) df))
                   \<le> sum_list (map Total_Sales (group_rows Customer_Segment ts df))"
    using idxmax_groupby_sum[OF assms, of Customer_Segment] by blast
  define ins where "ins =
     \<lparr>best_category = bc, best_category_sales = series_max (groupby_sum Product_Category df),
      top_region = tr, top_region_sales = series_max (groupby_sum Region df),
      top_product = tp, top_product_sales = series_max (groupby_sum Product df),
      top_segment = ts, quarterly = groupby_sum Quarter df\<rparr>"
  have "key_insights df = Inr ins"
    by (simp add: key_insights_def bc(1) tr(1) tp(1) ts(1) ins_def)
  moreover have "best_category ins = bc" "top_region ins = tr" "top_product ins = tp"
    "top_segment ins = ts"
    "best_category_sales ins = series_max (groupby_sum Product_Category df)"
    "top_region_sales ins = series_max (groupby_sum Region df)"
    "top_product_sales ins = series_max (groupby_sum Product df)"
    by (simp_all add: ins_def)
  ultimately show ?thesis
    using bc(2-4) tr(2-4) tp(2-4) ts(2-3) by (intro exI[of _ ins]) simp
qed

theorem argmax_correct_witness:
  "three_sales \<noteq> [] \<and>
   key_insights three_sales =
     Inr \<lparr>best_category = ''Sports'', best_category_sales = Some 300,
          top_region = ''Sydney'', top_region_sales = Some 300,
          top_product = ''Bike'', top_product_sales = Some 300,
          top_segment = ''Regular'', quarterly = [(1, 390)]\<rparr> \<and>
   groupby_sum Product_Category three_sales = [(''Books'', 90), (''Sports'', 300)] \<and>
   groupby_sum Region three_sales = [(''Perth'', 90), (''Sydney'', 300)] \<and>
   groupby_sum Product three_sales = [(''Bike'', 300), (''Cookbook'', 60), (''Fiction'', 30)] \<and>
   groupby_sum Customer_Segment three_sales = [(''Regular'', 390)]"
proof -
  have h: "three_sales \<noteq> []"
    by (simp add: three_sales_def)
  have g: "groupby_sum Product_Category three_sales = [(''Books'', 90), (''Sports'', 300)]"
    "groupby_sum Region three_sales = [(''Perth'', 90), (''Sydney'', 300)]"
    "groupby_sum Product three_sales = [(''Bike'', 300), (''Cookbook'', 60), (''Fiction'', 30)]"
    "groupby_sum Customer_Segment three_sales = [(''Regular'', 390)]"
    by code_simp+
  obtain ins where ins: "key_insights three_sales = Inr ins"
    using argmax_correct[OF h] by blast
  have "ins = \<lparr>best_category = ''Sports'', best_category_sales = Some 300,
          top_region = ''Sydney'', top_region_sales = Some 300,
          top_product = ''Bike'', top_product_sales = Some 300,
          top_segment = ''Regular'', quarterly = [(1, 390)]\<rparr>"
    using ins unfolding three_insights by simp
  with ins show ?thesis using h g by simp
qed

text \<open>
  C2 (as the code has it). On a frame with no rows \<open>key_insights\<close> ends in the ValueError
  that pandas raises for \<open>idxmax\<close> of an empty Series, at its first statement, and produces
  no insight. The same holds for \<open>idxmax\<close> of any grouping of an empty frame. There is no
  error of the program's own for an empty dataset.
\<close>

theorem empty_table_raises_ValueError:
  "key_insights [] = Inl ValueError \<and> idxmax (groupby_sum key []) = Inl ValueError"
  by (simp add: key_insights_def idxmax_def groupby_sum_def group_keys_def)

text \<open>
  C2 as stated fails: not every step raises on an empty frame. The maximum of an empty
  grouping is NaN, and the quarterly sums of an empty frame are an empty Series; both are
  returned without an error. Inside \<open>key_insights\<close> they are not reached, because the first
  \<open>idxmax\<close> has raised ValueError.
\<close>

theorem empty_table_counterexample:
  "key_insights [] = Inl ValueError \<and>
   series_max (groupby_sum Product_Category []) = None \<and>
   groupby_sum Quarter [] = []"
  by (simp add: key_insights_def idxmax_def series_max_def groupby_sum_def group_keys_def)

subsection \<open>The ranking of products\<close>

lemma sort_values_desc_props:
  "mset (sort_values_desc v xs) = mset xs"
  "sorted_wrt (\<lambda>a b. v b \<le> v a) (sort_values_desc v xs)"
proof -
  show "mset (sort_values_desc v xs) = mset xs"
    by (simp add: sort_values_desc_def)
  have "sorted (map (\<lambda>x. - v x) (sort_values_desc v xs))"
    by (simp add: sort_values_desc_def)
  then show "sorted_wrt (\<lambda>a b. v b \<le> v a) (sort_values_desc v xs)"
    by (simp add: sorted_map)
qed

lemma groupby_sum_keys: "map fst (groupby_sum key df) = group_keys key df"
  by (simp add: groupby_sum_def comp_def)

text \<open>
  C9. Top-N ranking. The top products of a frame are distinct products of the frame, each
  with the total sales of its group, in descending order of that total; there are
  \<open>min 7 d\<close> of them, where \<open>d\<close> is the number of distinct products, and every product
  left out has total sales no greater than each product listed. The function is total:
  fewer than seven products is not an error.
\<close>

theorem top_products_ranking:
  "distinct (map fst (top_products df)) \<and>
   fst ` set (top_products df) \<subseteq> Product ` set df \<and>
   length (top_products df) = min 7 (card (Product ` set df)) \<and>
   sorted_wrt (\<lambda>a b. snd b \<le> snd a) (top_products df) \<and>
   (\<forall>(k, s) \<in> set (top_products df). s = sum_list (map Total_Sales (group_rows Product k df))) \<and>
   (\<forall>k \<in> Product ` set df - fst ` set (top_products df). \<forall>(k', s') \<in> set (top_products df).
        sum_list (map Total_Sales (group_rows Product k df)) \<le> s')"
proof -
  define ranked where "ranked = sort_values_desc snd (groupby_sum Product df)"
  have tp: "top_products df = take 7 ranked"
    by (simp add: top_products_def ranked_def)
  have ms: "mset ranked = mset (groupby_sum Product df)"
    unfolding ranked_def by (rule sort_values_desc_props)
  have set_ranked: "set ranked = set (groupby_sum Product df)"
    using ms by (metis set_mset_mset)
  have "mset (map fst ranked) = mset (group_keys Product df)"
    using ms by (metis groupby_sum_keys mset_map)
  then have dist: "distinct (map fst ranked)"
    and len: "length ranked = length (group_keys Product df)"
    using group_keys_props(1)[of Product df]
    by (metis mset_eq_imp_distinct_iff, metis length_map size_mset)
  have card: "length ranked = card (Product ` set df)"
    unfolding len using group_keys_props[of Product df] by (metis distinct_card)
  have sorted: "sorted_wrt (\<lambda>a b. snd b \<le> snd a) ranked"
    unfolding ranked_def by (rule sort_values_desc_props)
  have mem: "k \<in> Product ` set df \<and> s = sum_list (map Total_Sales (group_rows Product k df))"
    if "(k, s) \<in> set ranked" for k s
    using that unfolding set_ranked by (simp add: groupby_sum_mem)
  have c1: "distinct (map fst (take 7 ranked))"
    using dist by (simp add: take_map[symmetric])
  have sub: "set (take 7 ranked) \<subseteq> set ranked"
    by (rule set_take_subset)
  have c2: "fst ` set (take 7 ranked) \<subseteq> Product ` set df"
    using sub mem by fastforce
  have c3: "length (take 7 ranked) = min 7 (card (Product ` set df))"
    by (simp add: card min.commute)
  have c4: "sorted_wrt (\<lambda>a b. snd b \<le> snd a) (take 7 ranked)"
    using sorted by (rule sorted_wrt_take)
  have c5: "\<forall>(k, s) \<in> set (take 7 ranked). s = sum_list (map Total_Sales (group_rows Product k df))"
    using sub mem by blast
  have split: "sorted_wrt (\<lambda>a b. snd b \<le> snd a) (take 7 ranked @ drop 7 ranked)"
    using sorted by simp
  have c6: "\<forall>k \<in> Product ` set df - fst ` set (take 7 ranked). \<forall>(k', s') \<in> set (take 7 ranked).
        sum_list (map Total_Sales (group_rows Product k df)) \<le> s'"
  proof (intro ballI, clarify)
    fix k k' s' r
    assume r: "r \<in> set df" and notin: "Product r \<notin> fst ` set (take 7 ranked)"
      and top: "(k', s') \<in> set (take 7 ranked)"
    define s where "s = sum_list (map Total_Sales (group_rows Product (Product r) df))"
    have "(Product r, s) \<in> set ranked"
      unfolding set_ranked s_def using r by (simp add: groupby_sum_mem)
    then have "(Product r, s) \<in> set (take 7 ranked) \<union> set (drop 7 ranked)"
      by (metis append_take_drop_id set_append)
    with notin have "(Product r, s) \<in> set (drop 7 ranked)"
      by force
    with split top have "snd (Product r, s) \<le> snd (k', s')"
      unfolding sorted_wrt_append by blast
    then show "sum_list (map Total_Sales (group_rows Product (Product r) df)) \<le> s'"
      by (simp add: s_def)
  qed
  show ?thesis
    unfolding tp using c1 c2 c3 c4 c5 c6 by blast
qed

theorem top_products_ranking_witness:
  "top_products nine_sales =
     [(''Laptop'', 450), (''Bike'', 300), (''Tablet'', 200), (''Shoes'', 90), (''Jeans'', 80),
      (''Cookbook'', 60), (''Fiction'', 55)] \<and>
   card (Product ` set nine_sales) = 8 \<and>
   length (top_products nine_sales) = min 7 (card (Product ` set nine_sales)) \<and>
   top_products three_sales = [(''Bike'', 300), (''Cookbook'', 60), (''Fiction'', 30)] \<and>
   card (Product ` set three_sales) = 3 \<and>
   length (top_products three_sales) = min 7 (card (Product ` set three_sales))"
proof -
  have e: "top_products nine_sales =
     [(''Laptop'', 450), (''Bike'', 300), (''Tablet'', 200), (''Shoes'', 90), (''Jeans'', 80),
      (''Cookbook'', 60), (''Fiction'', 55)]"
    "card (Product ` set nine_sales) = 8"
    "top_products three_sales = [(''Bike'', 300), (''Cookbook'', 60), (''Fiction'', 30)]"
    "card (Product ` set three_sales) = 3"
    by code_simp+
  have l: "length (top_products nine_sales) = min 7 (card (Product ` set nine_sales))"
    "length (top_products three_sales) = min 7 (card (Product ` set three_sales))"
    using top_products_ranking[of nine_sales] top_products_ranking[of three_sales] by blast+
  show ?thesis by (intro conjI e l)
qed

end
